theory Spec2Isabelle
  imports Main "HOL-Library.Sublist" "HOL-Library.Multiset" "HOL-Library.AList"
begin

section \<open>JavaScript values and built-ins used by the macro store\<close>

text \<open>
  The macro store of mfsender keeps one JSON file per macro in a directory, migrates a
  legacy aggregate file into that layout once, expands \<open>M98 P<id>\<close> commands and
  dispatches the expanded commands to the controller. This theory embeds
  \<^verbatim>\<open>features/macro/migration.js\<close>, \<^verbatim>\<open>m98-storage.js\<close>, the
  \<^verbatim>\<open>M98Expander\<close> class and the \<^verbatim>\<open>handleExecute\<close> route handler.

  A JavaScript string is a \<^typ>\<open>string\<close>: a list of code units, here those below 256.
  A value produced by \<^verbatim>\<open>JSON.parse\<close> is a \<^verbatim>\<open>json\<close>. The program never
  computes with a JSON number: it only tests it for truthiness or converts it with
  \<^verbatim>\<open>String(...)\<close>, so a number is represented by the text \<^verbatim>\<open>String\<close>
  gives for it (\<open>JNum ''9001''\<close>, \<open>JNum ''1.5''\<close>, \<open>JNum ''1e+21''\<close>). An object
  is the list of its own properties; a lookup takes the first entry of a key.
  \<^verbatim>\<open>undefined\<close> is \<open>None\<close> of type \<open>json option\<close>.
\<close>

datatype json =
    JNull
  | JBool bool
  | JNum string
  | JStr string
  | JArr "json list"
  | JObj "(string \<times> json) list"

type_synonym jsval = "json option"

datatype js_error =
    TypeError
  | Error string
  | CodedError string string

text \<open>\<^verbatim>\<open>arr.join(',')\<close> on the already converted elements.\<close>

fun join_comma :: "string list \<Rightarrow> string" where
  "join_comma [] = []"
| "join_comma [x] = x"
| "join_comma (x # y # ys) = x @ CHR '','' # join_comma (y # ys)"

text \<open>\<^verbatim>\<open>String(v)\<close> for a parsed value; an array joins its elements, \<^verbatim>\<open>null\<close>
  elements as the empty text.\<close>

fun js_String :: "json \<Rightarrow> string" where
  "js_String JNull = ''null''"
| "js_String (JBool b) = (if b then ''true'' else ''false'')"
| "js_String (JNum r) = r"
| "js_String (JStr s) = s"
| "js_String (JArr xs) = join_comma (map (\<lambda>x. if x = JNull then [] else js_String x) xs)"
| "js_String (JObj kvs) = ''[object Object]''"

definition String_val :: "jsval \<Rightarrow> string" where
  "String_val v = (case v of None \<Rightarrow> ''undefined'' | Some x \<Rightarrow> js_String x)"

text \<open>\<^verbatim>\<open>ToBoolean\<close>: \<^verbatim>\<open>null\<close>, \<^verbatim>\<open>false\<close>, zero, \<^verbatim>\<open>NaN\<close>, the empty
  string and \<^verbatim>\<open>undefined\<close> are falsy.\<close>

fun truthy :: "json \<Rightarrow> bool" where
  "truthy JNull = False"
| "truthy (JBool b) = b"
| "truthy (JNum r) = (r \<noteq> ''0'' \<and> r \<noteq> ''NaN'')"
| "truthy (JStr s) = (s \<noteq> [])"
| "truthy (JArr xs) = True"
| "truthy (JObj kvs) = True"

definition truthy_val :: "jsval \<Rightarrow> bool" where
  "truthy_val v = (case v of None \<Rightarrow> False | Some x \<Rightarrow> truthy x)"

text \<open>\<^verbatim>\<open>a || d\<close> with a default \<open>d\<close> that is always defined.\<close>

definition js_or :: "jsval \<Rightarrow> json \<Rightarrow> json" where
  "js_or v d = (case v of None \<Rightarrow> d | Some x \<Rightarrow> if truthy x then x else d)"

text \<open>\<^verbatim>\<open>typeof v === 'object'\<close> holds of objects, arrays and \<^verbatim>\<open>null\<close>.\<close>

fun typeof_object :: "json \<Rightarrow> bool" where
  "typeof_object JNull = True"
| "typeof_object (JArr xs) = True"
| "typeof_object (JObj kvs) = True"
| "typeof_object v = False"

text \<open>
  \<^verbatim>\<open>v.key\<close> for the property names the program reads (\<^verbatim>\<open>id\<close>, \<^verbatim>\<open>name\<close>,
  \<^verbatim>\<open>description\<close>, \<^verbatim>\<open>commands\<close>, \<^verbatim>\<open>createdAt\<close>, \<^verbatim>\<open>updatedAt\<close>,
  \<^verbatim>\<open>keyboardBindings\<close>): none of them is inherited, so only an object can have one.
  Reading a property of \<^verbatim>\<open>null\<close> throws; the callers below test for \<open>JNull\<close> first.
\<close>

fun get_prop :: "string \<Rightarrow> json \<Rightarrow> jsval" where
  "get_prop key (JObj kvs) = map_of kvs key"
| "get_prop key v = None"

subsection \<open>Characters, \<^verbatim>\<open>parseInt\<close> and number printing\<close>

definition is_digit :: "char \<Rightarrow> bool" where
  "is_digit c = (48 \<le> (of_char c :: nat) \<and> (of_char c :: nat) \<le> 57)"

definition digit_val :: "char \<Rightarrow> nat" where
  "digit_val c = of_char c - 48"

definition digit_char :: "nat \<Rightarrow> char" where
  "digit_char d = ''0123456789'' ! d"

text \<open>White space and line terminators among the code units below 256: tab, line feed,
  vertical tab, form feed, carriage return, space and the no-break space.\<close>

definition is_ws :: "char \<Rightarrow> bool" where
  "is_ws c = ((of_char c :: nat) \<in> {9, 10, 11, 12, 13, 32, 160})"

definition digits_to_nat :: "string \<Rightarrow> nat" where
  "digits_to_nat ds = foldl (\<lambda>acc c. acc * 10 + digit_val c) 0 ds"

text \<open>
  \<^verbatim>\<open>Number.parseInt(s, 10)\<close>: skip leading white space, read an optional sign, then the
  longest run of decimal digits; \<open>None\<close> is \<^verbatim>\<open>NaN\<close>. The result is the exact integer.
  JavaScript rounds values beyond \<open>2^53\<close> to a double (possibly \<^verbatim>\<open>Infinity\<close>); the
  program only compares the result with the range 9001 to 9999 or prints it back, and a
  rounded value stays outside that range.
\<close>

definition parseInt10 :: "string \<Rightarrow> int option" where
  "parseInt10 s =
     (let t = dropWhile is_ws s;
          neg = (t \<noteq> [] \<and> hd t = CHR ''-'');
          u = (if t \<noteq> [] \<and> (hd t = CHR ''-'' \<or> hd t = CHR ''+'') then tl t else t);
          ds = takeWhile is_digit u
      in if ds = [] then None
         else Some (if neg then - int (digits_to_nat ds) else int (digits_to_nat ds)))"

text \<open>\<^verbatim>\<open>String(n)\<close> for an integer \<open>n\<close>: its decimal numeral.\<close>

fun show_nat :: "nat \<Rightarrow> string" where
  "show_nat n = (if n < 10 then [digit_char n] else show_nat (n div 10) @ [digit_char (n mod 10)])"

declare show_nat.simps [simp del]

definition String_int :: "int \<Rightarrow> string" where
  "String_int i = (if i < 0 then CHR ''-'' # show_nat (nat (- i)) else show_nat (nat i))"

text \<open>\<^verbatim>\<open>s.toLowerCase()\<close> on the letters A to Z; no other code unit lower-cases to a
  character of \<^verbatim>\<open>.macro\<close>, so the suffix test below is not affected by the rest.\<close>

definition lower_char :: "char \<Rightarrow> char" where
  "lower_char c =
     (case map_of (zip ''ABCDEFGHIJKLMNOPQRSTUVWXYZ'' ''abcdefghijklmnopqrstuvwxyz'') c of
        None \<Rightarrow> c
      | Some l \<Rightarrow> l)"

definition toLowerCase :: "string \<Rightarrow> string" where
  "toLowerCase s = map lower_char s"

text \<open>\<^verbatim>\<open>s.trim()\<close> and \<^verbatim>\<open>s.split('\n')\<close>.\<close>

definition trim :: "string \<Rightarrow> string" where
  "trim s = rev (dropWhile is_ws (rev (dropWhile is_ws s)))"


section \<open>The files\<close>

text \<open>
  The program reads every file through \<^verbatim>\<open>JSON.parse\<close> and writes every file through
  \<^verbatim>\<open>JSON.stringify\<close>, so the text of a file is represented by what
  \<^verbatim>\<open>JSON.parse\<close> makes of it: \<open>Malformed\<close> when it throws (the empty text
  included), \<open>Json v\<close> when it returns \<open>v\<close>. Writing \<^verbatim>\<open>JSON.stringify(v)\<close> stores
  \<open>Json v\<close>.

  \<open>macros\<close> lists the entries of the directory \<^verbatim>\<open>macros/\<close> in the order
  \<^verbatim>\<open>readdirSync\<close> returns them; the migration marker \<^verbatim>\<open>macros/.migrated\<close> is
  one of them. \<open>legacy\<close>, \<open>backup\<close> and \<open>settings\<close> are \<^verbatim>\<open>macros.json\<close>,
  \<^verbatim>\<open>macros.json.backup\<close> and \<^verbatim>\<open>settings.json\<close>, \<open>None\<close> when the file does not
  exist. File operations succeed: \<^verbatim>\<open>mkdirSync\<close> leaves the directory in place (a
  missing directory behaves as an empty one), a write stores its text, and a read fails
  only for a file that does not exist.
\<close>

datatype file_text = Malformed | Json json

record files =
  macros :: "(string \<times> file_text) list"
  legacy :: "file_text option"
  backup :: "file_text option"
  settings :: "file_text option"

definition ID_MIN :: int where "ID_MIN = 9001"
definition ID_MAX :: int where "ID_MAX = 9999"
definition MACRO_EXT :: string where "MACRO_EXT = ''.macro''"

text \<open>The name of the marker within the directory.\<close>

definition MIGRATED_MARKER :: string where "MIGRATED_MARKER = ''.migrated''"

definition existsSync :: "files \<Rightarrow> string \<Rightarrow> bool" where
  "existsSync s name = (map_of (macros s) name \<noteq> None)"

definition writeFileSync :: "string \<Rightarrow> file_text \<Rightarrow> files \<Rightarrow> files" where
  "writeFileSync name t s = s\<lparr>macros := AList.update name t (macros s)\<rparr>"

definition ensureMacrosDir :: "files \<Rightarrow> files" where
  "ensureMacrosDir s = s"

definition isMacroFile :: "string \<Rightarrow> bool" where
  "isMacroFile name = suffix MACRO_EXT (toLowerCase name)"

definition listMacroFiles :: "files \<Rightarrow> string list" where
  "listMacroFiles s = filter isMacroFile (map fst (macros s))"

text \<open>The marker text is an ISO date, which is not JSON.\<close>

definition writeMigratedMarker :: "files \<Rightarrow> files" where
  "writeMigratedMarker s = writeFileSync MIGRATED_MARKER Malformed s"

text \<open>\<open>None\<close> is the \<^verbatim>\<open>null\<close> of the \<^verbatim>\<open>catch\<close> branch; a parsed value that is not
  an array gives the empty array.\<close>

definition readLegacyMacros :: "files \<Rightarrow> json list option" where
  "readLegacyMacros s =
     (case legacy s of
        None \<Rightarrow> None
      | Some Malformed \<Rightarrow> None
      | Some (Json (JArr xs)) \<Rightarrow> Some xs
      | Some (Json v) \<Rightarrow> Some [])"

definition backupLegacyMacros :: "files \<Rightarrow> files" where
  "backupLegacyMacros s =
     (if backup s = None
      then (case legacy s of None \<Rightarrow> s | Some t \<Rightarrow> s\<lparr>backup := Some t\<rparr>)
      else s)"

definition writeMacroFile :: "json \<Rightarrow> files \<Rightarrow> files" where
  "writeMacroFile macro s =
     writeFileSync (String_val (get_prop ''id'' macro) @ MACRO_EXT) (Json macro) (ensureMacrosDir s)"

section \<open>Migration of the legacy file\<close>

text \<open>\<^verbatim>\<open>{...v}\<close>: the own enumerable properties of a value.\<close>

fun spread :: "json \<Rightarrow> (string \<times> json) list" where
  "spread (JObj kvs) = kvs"
| "spread (JArr xs) = zip (map show_nat [0..<length xs]) xs"
| "spread (JStr s) = zip (map show_nat [0..<length s]) (map (\<lambda>c. JStr [c]) s)"
| "spread v = []"

text \<open>The body of the \<^verbatim>\<open>forEach\<close> over the entries of the copied bindings; the state of
  the loop is the copy and the flag \<^verbatim>\<open>changed\<close>.\<close>

definition rebind :: "(string \<rightharpoonup> string) \<Rightarrow> string \<times> json \<Rightarrow>
    (string \<times> json) list \<times> bool \<Rightarrow> (string \<times> json) list \<times> bool" where
  "rebind idMap entry acc =
     (case snd entry of
        JStr v \<Rightarrow>
          if \<not> prefix ''Macro:'' v then acc
          else (case idMap (drop (length ''Macro:'') v) of
                  None \<Rightarrow> acc
                | Some newId \<Rightarrow>
                    if newId = [] then acc
                    else (AList.update (fst entry) (JStr (''Macro:'' @ newId)) (fst acc), True))
      | _ \<Rightarrow> acc)"

definition updateKeyboardBindings :: "(string \<rightharpoonup> string) \<Rightarrow> files \<Rightarrow> files" where
  "updateKeyboardBindings idMap s =
     (case settings s of
        None \<Rightarrow> s
      | Some Malformed \<Rightarrow> s
      | Some (Json st) \<Rightarrow>
          if \<not> truthy st \<or> \<not> typeof_object st then s
          else (case get_prop ''keyboardBindings'' st of
                  None \<Rightarrow> s
                | Some keyboardBindings \<Rightarrow>
                    if \<not> truthy keyboardBindings then s
                    else
                      let updatedBindings = spread keyboardBindings;
                          (updated, changed) =
                             fold (rebind idMap) updatedBindings (updatedBindings, False)
                      in if \<not> changed then s
                         else s\<lparr>settings := Some (Json (JObj
                                (AList.update ''keyboardBindings'' (JObj updated) (spread st))))\<rparr>))"

datatype reason = marker | existing | no_legacy | read_failed | range_exceeded

datatype migration = NotMigrated reason | Migrated nat

text \<open>The record the loop builds for one legacy entry.\<close>

definition migrated_macro :: "string \<Rightarrow> string \<Rightarrow> json \<Rightarrow> json" where
  "migrated_macro now newId legacy_rec =
     JObj [(''id'', JStr newId),
           (''name'', js_or (get_prop ''name'' legacy_rec) (JStr (''Macro '' @ newId))),
           (''description'', js_or (get_prop ''description'' legacy_rec) (JStr [])),
           (''commands'', js_or (get_prop ''commands'' legacy_rec) (JStr [])),
           (''createdAt'', js_or (get_prop ''createdAt'' legacy_rec) (JStr now)),
           (''updatedAt'', js_or (get_prop ''updatedAt'' legacy_rec) (JStr now))]"

text \<open>
  \<^verbatim>\<open>legacyMacros.forEach((legacy, index) => ...)\<close>. Reading \<^verbatim>\<open>legacy.id\<close> of a
  \<^verbatim>\<open>null\<close> entry throws a \<^verbatim>\<open>TypeError\<close> that nothing catches: the loop stops with
  the files written so far.
\<close>

fun migrate_each :: "string \<Rightarrow> json list \<Rightarrow> nat \<Rightarrow> (string \<rightharpoonup> string) \<Rightarrow> files \<Rightarrow>
    files \<times> (js_error + (string \<rightharpoonup> string))" where
  "migrate_each now [] index idMap s = (s, Inr idMap)"
| "migrate_each now (legacy_rec # rest) index idMap s =
     (if legacy_rec = JNull then (s, Inl TypeError)
      else
        let newId = String_int (ID_MIN + int index);
            idMap' = idMap(String_val (get_prop ''id'' legacy_rec) \<mapsto> newId);
            macro = migrated_macro now newId legacy_rec
        in migrate_each now rest (Suc index) idMap' (writeMacroFile macro s))"

definition migrateLegacyMacrosIfNeeded :: "string \<Rightarrow> files \<Rightarrow> files \<times> (js_error + migration)" where
  "migrateLegacyMacrosIfNeeded now s0 =
     (let s = ensureMacrosDir s0 in
      if existsSync s MIGRATED_MARKER then (s, Inr (NotMigrated marker))
      else if length (listMacroFiles s) > 0 then
        (writeMigratedMarker
           (if legacy s \<noteq> None \<and> backup s = None then backupLegacyMacros s else s),
         Inr (NotMigrated existing))
      else if legacy s = None then (s, Inr (NotMigrated no_legacy))
      else (case readLegacyMacros s of
              None \<Rightarrow> (s, Inr (NotMigrated read_failed))
            | Some legacyMacros \<Rightarrow>
                let s1 = backupLegacyMacros s in
                if int (length legacyMacros) > ID_MAX - ID_MIN + 1
                then (s1, Inr (NotMigrated range_exceeded))
                else (case migrate_each now legacyMacros 0 Map.empty s1 of
                        (s2, Inl e) \<Rightarrow> (s2, Inl e)
                      | (s2, Inr idMap) \<Rightarrow>
                          (writeMigratedMarker (updateKeyboardBindings idMap s2),
                           Inr (Migrated (length legacyMacros))))))"

section \<open>The per-record store\<close>

text \<open>
  The times the program reads from the clock: the two \<^verbatim>\<open>new Date()\<close> of
  \<^verbatim>\<open>DEFAULT_MACRO\<close>, taken when the module is loaded, the \<^verbatim>\<open>now\<close> of a migration
  and the \<^verbatim>\<open>now\<close> of \<^verbatim>\<open>createMacro\<close>.
\<close>

record clock =
  default_created :: string
  default_updated :: string
  migration_now :: string
  create_now :: string

definition DEFAULT_MACRO :: "clock \<Rightarrow> json" where
  "DEFAULT_MACRO t =
     JObj [(''id'', JStr ''9001''),
           (''name'', JStr ''Macro Sample''),
           (''description'', JStr ''Finds the hole center using probe''),
           (''commands'', JStr (''G91 G1 X100 F1000'' @ [CHR 0x0A] @ ''G91 G1 X-100 F1000'')),
           (''createdAt'', JStr (default_created t)),
           (''updatedAt'', JStr (default_updated t))]"

definition isValidMacroId :: "jsval \<Rightarrow> bool" where
  "isValidMacroId ident =
     (case parseInt10 (String_val ident) of
        None \<Rightarrow> False
      | Some numeric \<Rightarrow> numeric \<ge> ID_MIN \<and> numeric \<le> ID_MAX)"

definition normalizeMacroId :: "jsval \<Rightarrow> string option" where
  "normalizeMacroId ident =
     (case parseInt10 (String_val ident) of
        None \<Rightarrow> None
      | Some numeric \<Rightarrow> Some (String_int numeric))"

definition getMacroPath :: "string \<Rightarrow> string" where
  "getMacroPath ident = ident @ MACRO_EXT"

text \<open>\<^verbatim>\<open>parseMacroFile\<close> of an entry of the directory; every failure, a missing file
  included, is the \<^verbatim>\<open>null\<close> of the function.\<close>

definition parseMacroFile :: "files \<Rightarrow> string \<Rightarrow> json option" where
  "parseMacroFile s name =
     (case map_of (macros s) name of
        None \<Rightarrow> None
      | Some Malformed \<Rightarrow> None
      | Some (Json parsed) \<Rightarrow>
          if \<not> truthy parsed \<or> \<not> typeof_object parsed then None
          else if \<not> truthy_val (get_prop ''id'' parsed) \<or> \<not> isValidMacroId (get_prop ''id'' parsed)
          then None
          else Some parsed)"

definition ensureDefaultMacroIfEmpty :: "clock \<Rightarrow> files \<Rightarrow> files" where
  "ensureDefaultMacroIfEmpty t s =
     (if length (listMacroFiles s) > 0 then s
      else if legacy s \<noteq> None \<and> \<not> existsSync s MIGRATED_MARKER then s
      else writeMacroFile (DEFAULT_MACRO t) s)"

text \<open>\<^verbatim>\<open>Number.parseInt(m.id, 10)\<close>, \<open>None\<close> for \<^verbatim>\<open>NaN\<close>.\<close>

definition macro_num :: "json \<Rightarrow> int option" where
  "macro_num m = parseInt10 (String_val (get_prop ''id'' m))"

text \<open>The key of the comparator \<^verbatim>\<open>parseInt(a.id) - parseInt(b.id)\<close>. Every record that
  reaches the sort passed \<^verbatim>\<open>isValidMacroId\<close>, so its identifier parses.\<close>

definition sort_num :: "json \<Rightarrow> int" where
  "sort_num m = (case macro_num m of None \<Rightarrow> 0 | Some n \<Rightarrow> n)"

primrec collect_macros :: "files \<Rightarrow> string list \<Rightarrow> json list" where
  "collect_macros s [] = []"
| "collect_macros s (file # rest) =
     (case parseMacroFile s file of
        None \<Rightarrow> collect_macros s rest
      | Some macro \<Rightarrow> macro # collect_macros s rest)"

text \<open>\<^verbatim>\<open>Array.prototype.sort\<close> with this comparator is a stable sort by the key.\<close>

definition readMacros :: "clock \<Rightarrow> files \<Rightarrow> files \<times> (js_error + json list)" where
  "readMacros t s0 =
     (case migrateLegacyMacrosIfNeeded (migration_now t) s0 of
        (s1, Inl e) \<Rightarrow> (s1, Inl e)
      | (s1, Inr r) \<Rightarrow>
          let s2 = ensureDefaultMacroIfEmpty t (ensureMacrosDir s1);
              found = collect_macros s2 (listMacroFiles s2)
          in (s2, Inr (sort_key sort_num found)))"

definition getMacro :: "files \<Rightarrow> jsval \<Rightarrow> json option" where
  "getMacro s ident =
     (case normalizeMacroId ident of
        None \<Rightarrow> None
      | Some normalized \<Rightarrow>
          if normalized = [] \<or> \<not> isValidMacroId (Some (JStr normalized)) then None
          else if \<not> existsSync s (getMacroPath normalized) then None
          else parseMacroFile s (getMacroPath normalized))"





section \<open>Expansion of an M98 command\<close>



section \<open>Execution of a macro through the route handler\<close>

text \<open>
  The collaborators of \<^verbatim>\<open>handleExecute\<close>. A command of the pipeline has the fields the
  handler reads. The controller's \<^verbatim>\<open>sendCommand\<close> is given by the outcome of the
  awaited promise, which may depend on the dispatches issued before: \<open>None\<close> when it
  resolves, the message of the error when it rejects. The pipeline's \<^verbatim>\<open>process\<close>
  either fails with a message or returns \<^verbatim>\<open>shouldContinue\<close>, \<^verbatim>\<open>commands\<close> and
  \<^verbatim>\<open>result?.message\<close>. The texts made from \<^verbatim>\<open>Date.now()\<close> and
  \<^verbatim>\<open>Math.random()\<close> are parameters. The trace lists the calls made to the pipeline
  and to the controller, in the order they are issued.
\<close>

record pipeline_command =
  command :: string
  displayCommand :: "string option"
  commandId :: "string option"
  meta :: jsval

record dispatch =
  sent_command :: string
  sent_commandId :: string
  sent_displayCommand :: string
  sent_meta :: "(string \<times> jsval) list option"

record plugin_context =
  sourceId :: string
  context_commandId :: string
  context_meta :: "(string \<times> jsval) list"
  machineState :: jsval

record process_result =
  shouldContinue :: bool
  commands :: "pipeline_command list"
  message :: jsval

record controller =
  isConnected :: bool
  lastStatus :: jsval
  sendCommand :: "dispatch list \<Rightarrow> dispatch \<Rightarrow> string option"

record exec_env =
  invocation_suffix :: string
  command_suffix :: "nat \<Rightarrow> string"

datatype event = Process string plugin_context | SendCommand dispatch

record response =
  status :: nat
  body :: "(string \<times> json) list"

text \<open>The options object built for the \<open>i\<close>-th command of the list.\<close>

definition make_dispatch :: "exec_env \<Rightarrow> plugin_context \<Rightarrow> string \<Rightarrow> json \<Rightarrow> nat \<Rightarrow>
    pipeline_command \<Rightarrow> dispatch" where
  "make_dispatch env ctx macroId' macro i cmd =
     (let cmdDisplayCommand =
            (case displayCommand cmd of
               None \<Rightarrow> command cmd
             | Some d \<Rightarrow> if d \<noteq> [] then d else command cmd);
          cmdMeta =
            fold (\<lambda>kv. AList.update (fst kv) (Some (snd kv)))
              (spread (js_or (meta cmd) (JObj [])))
              [(''sourceId'', Some (JStr ''macro'')),
               (''macroId'', Some (JStr macroId')),
               (''macroName'', get_prop ''name'' macro)];
          uniqueCommandId =
            (case commandId cmd of
               None \<Rightarrow> context_commandId ctx @ ''-'' @ command_suffix env i
             | Some c \<Rightarrow> if c \<noteq> [] then c
                         else context_commandId ctx @ ''-'' @ command_suffix env i)
      in \<lparr>sent_command = command cmd,
          sent_commandId = uniqueCommandId,
          sent_displayCommand = cmdDisplayCommand,
          sent_meta = (if length cmdMeta > 0 then Some cmdMeta else None)\<rparr>)"

text \<open>
  \<^verbatim>\<open>for (const cmd of result.commands) { ...; await cncController.sendCommand(...) }\<close>:
  the next command is issued only after the promise of the one before has resolved; a
  rejection leaves the loop. The result is the list of dispatches issued and the message of
  the rejection, if any.
\<close>

fun forward :: "controller \<Rightarrow> (nat \<Rightarrow> pipeline_command \<Rightarrow> dispatch) \<Rightarrow> pipeline_command list \<Rightarrow>
    nat \<Rightarrow> dispatch list \<Rightarrow> dispatch list \<times> string option" where
  "forward c mk [] i issued = (issued, None)"
| "forward c mk (cmd # rest) i issued =
     (case sendCommand c issued (mk i cmd) of
        Some err \<Rightarrow> (issued @ [mk i cmd], Some err)
      | None \<Rightarrow> forward c mk rest (Suc i) (issued @ [mk i cmd]))"

definition handleExecute :: "exec_env \<Rightarrow> controller option \<Rightarrow>
    (string \<Rightarrow> plugin_context \<Rightarrow> string + process_result) \<Rightarrow> files \<Rightarrow> string \<Rightarrow>
    event list \<times> response" where
  "handleExecute env cncController process s id_param =
     (case cncController of
        None \<Rightarrow>
          ([], \<lparr>status = 503, body = [(''error'', JStr ''CNC controller is not connected'')]\<rparr>)
      | Some c \<Rightarrow>
          if \<not> isConnected c
          then ([], \<lparr>status = 503, body = [(''error'', JStr ''CNC controller is not connected'')]\<rparr>)
          else (case normalizeMacroId (Some (JStr id_param)) of
            None \<Rightarrow>
              ([], \<lparr>status = 400, body = [(''error'', JStr ''Macro ID must be between 9001 and 9999'')]\<rparr>)
          | Some macroId' \<Rightarrow>
              if macroId' = [] \<or> \<not> isValidMacroId (Some (JStr macroId'))
              then ([], \<lparr>status = 400,
                          body = [(''error'', JStr ''Macro ID must be between 9001 and 9999'')]\<rparr>)
              else (case getMacro s (Some (JStr macroId')) of
                None \<Rightarrow> ([], \<lparr>status = 404, body = [(''error'', JStr ''Macro not found'')]\<rparr>)
              | Some macro \<Rightarrow>
                  let m98Command = ''M98 P'' @ macroId';
                      pluginContext =
                        \<lparr>sourceId = ''macro'',
                         context_commandId = ''macro-'' @ invocation_suffix env,
                         context_meta = [(''sourceId'', Some (JStr ''macro'')),
                                         (''macroId'', Some (JStr macroId')),
                                         (''macroName'', get_prop ''name'' macro)],
                         machineState = lastStatus c\<rparr>
                  in (case process m98Command pluginContext of
                        Inl err \<Rightarrow>
                          ([Process m98Command pluginContext],
                           \<lparr>status = 500, body = [(''error'', JStr ''Failed to execute macro''),
                                                  (''message'', JStr err)]\<rparr>)
                      | Inr result \<Rightarrow>
                          if \<not> shouldContinue result
                          then ([Process m98Command pluginContext],
                                \<lparr>status = 400,
                                 body = [(''error'', JStr ''Failed to execute macro''),
                                         (''message'',
                                          js_or (message result) (JStr ''Execution failed''))]\<rparr>)
                          else (case forward c (make_dispatch env pluginContext macroId' macro)
                                       (commands result) 0 [] of
                                  (issued, Some err) \<Rightarrow>
                                    (Process m98Command pluginContext # map SendCommand issued,
                                     \<lparr>status = 500,
                                      body = [(''error'', JStr ''Failed to execute macro''),
                                              (''message'', JStr err)]\<rparr>)
                                | (issued, None) \<Rightarrow>
                                    (Process m98Command pluginContext # map SendCommand issued,
                                     \<lparr>status = 200,
                                      body = [(''success'', JBool True),
                                              (''message'',
                                               JStr (''Macro '' @ [CHR 0x22] @ String_val (get_prop ''name'' macro)
                                                     @ [CHR 0x22] @ '' executed via '' @ m98Command))]\<rparr>))))))"

section \<open>Example stores\<close>

text \<open>A migrated store holding one macro, whose commands have a blank line in the middle.\<close>

definition probe_macro :: json where
  "probe_macro =
     JObj [(''id'', JStr ''9001''),
           (''name'', JStr ''Probe''),
           (''description'', JStr []),
           (''commands'',
            JStr (''G91 G1 X100 F1000'' @ [CHR 0x0A, CHR 0x0A] @ ''G91 G1 X-100 F1000'')),
           (''createdAt'', JStr ''2025-01-01T00:00:00.000Z''),
           (''updatedAt'', JStr ''2025-01-01T00:00:00.000Z'')]"


text \<open>A fresh installation, a legacy file holding an object instead of an array, and a
  legacy file with one record more than the identifier range has slots.\<close>

definition empty_store :: files where
  "empty_store = \<lparr>macros = [], legacy = None, backup = None, settings = None\<rparr>"

definition object_legacy_store :: files where
  "object_legacy_store =
     \<lparr>macros = [], legacy = Some (Json (JObj [(''macros'', JArr [])])), backup = None,
      settings = None\<rparr>"

definition oversized_legacy_store :: files where
  "oversized_legacy_store =
     \<lparr>macros = [], legacy = Some (Json (JArr (replicate 1000 (JObj [])))), backup = None,
      settings = None\<rparr>"

text \<open>A legacy file with the records \<^verbatim>\<open>A\<close> and \<^verbatim>\<open>B\<close> and a key bound to the second
  of them, and the files after its migration.\<close>

definition two_legacy_records :: "json list" where
  "two_legacy_records =
     [JObj [(''id'', JStr ''A''), (''name'', JStr ''Home''), (''description'', JStr ''Go home''),
            (''commands'', JStr ''G28'')],
      JObj [(''id'', JStr ''B''), (''commands'', JStr ''G0 X0'')]]"

definition two_legacy_store :: files where
  "two_legacy_store =
     \<lparr>macros = [],
      legacy = Some (Json (JArr two_legacy_records)),
      backup = None,
      settings = Some (Json (JObj
        [(''theme'', JStr ''dark''),
         (''keyboardBindings'',
          JObj [(''F1'', JStr ''Macro:B''), (''F2'', JStr ''Jog:X+''), (''F3'', JStr ''Macro:C'')])]))\<rparr>"

definition two_legacy_migrated :: files where
  "two_legacy_migrated =
     two_legacy_store
       \<lparr>macros :=
          [(''9001.macro'', Json (JObj
              [(''id'', JStr ''9001''), (''name'', JStr ''Home''),
               (''description'', JStr ''Go home''), (''commands'', JStr ''G28''),
               (''createdAt'', JStr ''2025-06-01T00:00:00.000Z''),
               (''updatedAt'', JStr ''2025-06-01T00:00:00.000Z'')])),
           (''9002.macro'', Json (JObj
              [(''id'', JStr ''9002''), (''name'', JStr ''Macro 9002''),
               (''description'', JStr []), (''commands'', JStr ''G0 X0''),
               (''createdAt'', JStr ''2025-06-01T00:00:00.000Z''),
               (''updatedAt'', JStr ''2025-06-01T00:00:00.000Z'')])),
           (''.migrated'', Malformed)],
        backup := legacy two_legacy_store,
        settings := Some (Json (JObj
          [(''theme'', JStr ''dark''),
           (''keyboardBindings'',
            JObj [(''F1'', JStr ''Macro:9002''), (''F2'', JStr ''Jog:X+''),
                  (''F3'', JStr ''Macro:C'')])]))\<rparr>"

text \<open>
  Names for what the migration is expected to produce: the identifier given to the record at
  an index, the key under which a legacy record enters the identifier map, the map built
  from a list of records (a later record with the same key wins), the directory entries
  written for them, and the rewriting of one settings entry.
\<close>

definition new_id :: "nat \<Rightarrow> string" where
  "new_id index = String_int (ID_MIN + int index)"

definition legacy_key :: "json \<Rightarrow> string" where
  "legacy_key legacy_rec = String_val (get_prop ''id'' legacy_rec)"

definition idmap_from :: "nat \<Rightarrow> json list \<Rightarrow> (string \<rightharpoonup> string)" where
  "idmap_from k recs =
     map_of (rev (zip (map legacy_key recs) (map new_id [k..<k + length recs])))"

definition new_entries :: "string \<Rightarrow> nat \<Rightarrow> json list \<Rightarrow> (string \<times> file_text) list" where
  "new_entries now k recs =
     map (\<lambda>(i, r). (new_id i @ MACRO_EXT, Json (migrated_macro now (new_id i) r)))
       (zip [k..<k + length recs] recs)"



text \<open>A numeric string in the words of the data model: a non-empty text of decimal digits.\<close>

definition numeric_string :: "json \<Rightarrow> bool" where
  "numeric_string v = (case v of JStr t \<Rightarrow> t \<noteq> [] \<and> list_all is_digit t | _ \<Rightarrow> False)"

text \<open>A migrated store whose only file holds the identifier \<^verbatim>\<open>"9001abc"\<close>, and the times
  used in the examples.\<close>

definition suffixed_id_macro :: json where
  "suffixed_id_macro = JObj [(''id'', JStr ''9001abc''), (''name'', JStr ''Probe''),
                             (''commands'', JStr ''G28'')]"

definition suffixed_id_store :: files where
  "suffixed_id_store =
     \<lparr>macros = [(''9001.macro'', Json suffixed_id_macro), (''.migrated'', Malformed)],
      legacy = None, backup = None, settings = None\<rparr>"

definition example_clock :: clock where
  "example_clock =
     \<lparr>default_created = ''2025-05-01T00:00:00.000Z'',
      default_updated = ''2025-05-01T00:00:00.001Z'',
      migration_now = ''2025-06-01T00:00:00.000Z'',
      create_now = ''2025-06-01T00:00:00.005Z''\<rparr>"

text \<open>Every per-record file that parses is named after the number of its identifier, as the
  files written by \<^verbatim>\<open>writeMacroFile\<close> for a new or migrated macro are.\<close>

definition named_by_id :: "files \<Rightarrow> bool" where
  "named_by_id s =
     list_all (\<lambda>name. case parseMacroFile s name of
                         None \<Rightarrow> True
                       | Some m \<Rightarrow> name = getMacroPath (String_int (sort_num m)))
       (listMacroFiles s)"

text \<open>A migrated store in which a copy of a macro file sits beside the original.\<close>

definition duplicate_id_store :: files where
  "duplicate_id_store =
     \<lparr>macros = [(''9001.macro'', Json probe_macro), (''copy.macro'', Json probe_macro),
                (''.migrated'', Malformed)],
      legacy = None, backup = None, settings = None\<rparr>"




section \<open>Decimal numerals\<close>

lemma digit_char_props:
  assumes "d < 10"
  shows "is_digit (digit_char d)" "digit_val (digit_char d) = d"
proof -
  have d: "d \<in> {0, 1, 2, 3, 4, 5, 6, 7, 8, 9}"
    using assms by auto
  show "is_digit (digit_char d)"
    using d by (auto simp add: digit_char_def is_digit_def)
  show "digit_val (digit_char d) = d"
    using d by (auto simp add: digit_char_def digit_val_def)
qed

lemma show_nat_digits: "\<forall>c \<in> set (show_nat n). is_digit c"
proof (induction n rule: show_nat.induct)
  case (1 n)
  show ?case
  proof (cases "n < 10")
    case True
    then show ?thesis by (subst show_nat.simps) (simp add: digit_char_props)
  next
    case False
    then show ?thesis using 1 by (subst show_nat.simps) (simp add: digit_char_props)
  qed
qed

lemma show_nat_nonempty: "show_nat n \<noteq> []"
  by (subst show_nat.simps) simp

lemma digits_to_nat_snoc: "digits_to_nat (ds @ [c]) = digits_to_nat ds * 10 + digit_val c"
  by (simp add: digits_to_nat_def)

lemma digits_to_nat_show_nat: "digits_to_nat (show_nat n) = n"
proof (induction n rule: show_nat.induct)
  case (1 n)
  show ?case
  proof (cases "n < 10")
    case True
    then show ?thesis by (subst show_nat.simps) (simp add: digits_to_nat_def digit_char_props)
  next
    case False
    then show ?thesis using 1
      by (subst show_nat.simps) (simp add: digits_to_nat_snoc digit_char_props)
  qed
qed

lemma is_digit_not_special: "is_digit c \<Longrightarrow> \<not> is_ws c \<and> c \<noteq> CHR ''-'' \<and> c \<noteq> CHR ''+''"
  by (auto simp add: is_digit_def is_ws_def)

lemma parseInt10_digits:
  assumes "ds \<noteq> []" "\<forall>c \<in> set ds. is_digit c"
  shows "parseInt10 ds = Some (int (digits_to_nat ds))"
    and "parseInt10 (CHR ''-'' # ds) = Some (- int (digits_to_nat ds))"
proof -
  obtain c cs where cs: "ds = c # cs" using assms(1) by (cases ds) auto
  have d: "is_digit c" using assms(2) cs by simp
  have tw: "takeWhile is_digit cs = cs"
    using assms(2) cs by (simp add: takeWhile_eq_all_conv)
  have nws: "\<not> is_ws CHR ''-''" by (simp add: is_ws_def)
  show "parseInt10 ds = Some (int (digits_to_nat ds))"
    using d is_digit_not_special[OF d] by (simp add: parseInt10_def Let_def cs tw)
  show "parseInt10 (CHR ''-'' # ds) = Some (- int (digits_to_nat ds))"
    using d nws by (simp add: parseInt10_def Let_def cs tw)
qed

lemma parseInt10_String_int: "parseInt10 (String_int i) = Some i"
  using parseInt10_digits[OF show_nat_nonempty show_nat_digits]
  by (simp add: String_int_def digits_to_nat_show_nat)

lemma String_int_inj:
  assumes "String_int a = String_int b"
  shows "a = b"
proof -
  have "Some a = parseInt10 (String_int a)" by (simp only: parseInt10_String_int)
  also have "\<dots> = parseInt10 (String_int b)" by (simp only: assms)
  also have "\<dots> = Some b" by (simp only: parseInt10_String_int)
  finally show ?thesis by simp
qed


section \<open>Evaluation on concrete inputs\<close>

lemmas text_eval =
  parseInt10_def is_ws_def is_digit_def digits_to_nat_def digit_val_def
  String_int_def show_nat.simps digit_char_def String_val_def
  isMacroFile_def toLowerCase_def lower_char_def MACRO_EXT_def suffix_to_prefix
  trim_def

lemmas id_eval =
  normalizeMacroId_def isValidMacroId_def ID_MIN_def ID_MAX_def getMacroPath_def
  truthy_val_def js_or_def

lemmas store_eval =
  existsSync_def writeFileSync_def ensureMacrosDir_def listMacroFiles_def
  writeMigratedMarker_def MIGRATED_MARKER_def writeMacroFile_def parseMacroFile_def
  getMacro_def

section \<open>Identifiers given to the store are normalised\<close>






section \<open>Migration: what each outcome leaves behind\<close>

lemmas migrate_eval =
  migrateLegacyMacrosIfNeeded_def readLegacyMacros_def backupLegacyMacros_def
  updateKeyboardBindings_def rebind_def migrated_macro_def

lemma fold_rebind_empty: "fold (rebind Map.empty) es acc = acc"
  by (induction es arbitrary: acc) (auto simp add: rebind_def split: json.splits)

lemma updateKeyboardBindings_empty: "updateKeyboardBindings Map.empty s = s"
  by (simp add: updateKeyboardBindings_def fold_rebind_empty
      split: option.splits file_text.splits)

lemma existsSync_writeMigratedMarker: "existsSync (writeMigratedMarker s) MIGRATED_MARKER"
  by (simp add: existsSync_def writeMigratedMarker_def writeFileSync_def update_conv')

lemma backupLegacyMacros_fields:
  "macros (backupLegacyMacros s) = macros s"
  "legacy (backupLegacyMacros s) = legacy s"
  "settings (backupLegacyMacros s) = settings s"
  "backup (backupLegacyMacros s) = (if backup s = None then legacy s else backup s)"
  by (auto simp add: backupLegacyMacros_def split: option.splits)

lemma backupLegacyMacros_idem: "backupLegacyMacros (backupLegacyMacros s) = backupLegacyMacros s"
  by (auto simp add: backupLegacyMacros_def split: option.splits)

lemma readLegacyMacros_backup: "readLegacyMacros (backupLegacyMacros s) = readLegacyMacros s"
  by (simp add: readLegacyMacros_def backupLegacyMacros_fields)

lemma existsSync_backup: "existsSync (backupLegacyMacros s) name = existsSync s name"
  by (simp add: existsSync_def backupLegacyMacros_fields)

lemma listMacroFiles_backup: "listMacroFiles (backupLegacyMacros s) = listMacroFiles s"
  by (simp add: listMacroFiles_def backupLegacyMacros_fields)

lemma listMacroFiles_writeMigratedMarker:
  "listMacroFiles (writeMigratedMarker s) = listMacroFiles s"
proof -
  have nm: "\<not> isMacroFile MIGRATED_MARKER"
    by (simp add: MIGRATED_MARKER_def text_eval)
  have "filter isMacroFile (map fst (AList.update MIGRATED_MARKER v xs)) =
        filter isMacroFile (map fst xs)" for v :: file_text and xs
    using nm by (induction xs) auto
  then show ?thesis
    by (simp add: listMacroFiles_def writeMigratedMarker_def writeFileSync_def)
qed

text \<open>
  C2. With no marker and no per-record file, a legacy file that does not parse makes the
  migration return \<^verbatim>\<open>read-failed\<close> and change nothing, so no marker is written. A
  legacy file that parses to a value other than an array is not a read failure:
  \<^verbatim>\<open>readLegacyMacros\<close> takes it for the empty array, and the migration completes
  with \<^verbatim>\<open>{migrated: true, count: 0}\<close>, the backup made and the marker written.
\<close>

theorem migrate_unreadable_legacy:
  assumes "\<not> existsSync s MIGRATED_MARKER" and "listMacroFiles s = []"
  shows "(legacy s = Some Malformed \<longrightarrow>
            migrateLegacyMacrosIfNeeded now s = (s, Inr (NotMigrated read_failed))
            \<and> \<not> existsSync (fst (migrateLegacyMacrosIfNeeded now s)) MIGRATED_MARKER)
       \<and> (\<forall>v. legacy s = Some (Json v) \<and> (\<forall>xs. v \<noteq> JArr xs) \<longrightarrow>
            migrateLegacyMacrosIfNeeded now s =
              (writeMigratedMarker (backupLegacyMacros s), Inr (Migrated 0))
            \<and> existsSync (fst (migrateLegacyMacrosIfNeeded now s)) MIGRATED_MARKER
            \<and> listMacroFiles (fst (migrateLegacyMacrosIfNeeded now s)) = [])"
proof (intro conjI allI impI)
  assume m: "legacy s = Some Malformed"
  then show r: "migrateLegacyMacrosIfNeeded now s = (s, Inr (NotMigrated read_failed))"
    using assms
    by (simp add: migrateLegacyMacrosIfNeeded_def ensureMacrosDir_def readLegacyMacros_def)
  show "\<not> existsSync (fst (migrateLegacyMacrosIfNeeded now s)) MIGRATED_MARKER"
    using assms(1) by (simp add: r)
next
  fix v
  assume v: "legacy s = Some (Json v) \<and> (\<forall>xs. v \<noteq> JArr xs)"
  then have "readLegacyMacros s = Some []"
    by (cases v) (simp_all add: readLegacyMacros_def)
  then show r: "migrateLegacyMacrosIfNeeded now s =
              (writeMigratedMarker (backupLegacyMacros s), Inr (Migrated 0))"
    using assms v
    by (simp add: migrateLegacyMacrosIfNeeded_def ensureMacrosDir_def ID_MIN_def ID_MAX_def
        updateKeyboardBindings_empty)
  show "existsSync (fst (migrateLegacyMacrosIfNeeded now s)) MIGRATED_MARKER"
    by (simp add: r existsSync_writeMigratedMarker)
  show "listMacroFiles (fst (migrateLegacyMacrosIfNeeded now s)) = []"
    using assms(2) by (simp add: r listMacroFiles_writeMigratedMarker listMacroFiles_backup)
qed

theorem migrate_unreadable_legacy_witness:
  "migrateLegacyMacrosIfNeeded ''2025-06-01T00:00:00.000Z'' (empty_store\<lparr>legacy := Some Malformed\<rparr>)
     = (empty_store\<lparr>legacy := Some Malformed\<rparr>, Inr (NotMigrated read_failed))
   \<and> migrateLegacyMacrosIfNeeded ''2025-06-01T00:00:00.000Z'' object_legacy_store
     = (object_legacy_store\<lparr>macros := [(''.migrated'', Malformed)],
          backup := Some (Json (JObj [(''macros'', JArr [])]))\<rparr>, Inr (Migrated 0))"
proof -
  have h1: "\<not> existsSync (empty_store\<lparr>legacy := Some Malformed\<rparr>) MIGRATED_MARKER"
    by (simp add: empty_store_def existsSync_def)
  have h2: "listMacroFiles (empty_store\<lparr>legacy := Some Malformed\<rparr>) = []"
    by (simp add: empty_store_def listMacroFiles_def)
  have h3: "\<not> existsSync object_legacy_store MIGRATED_MARKER"
    by (simp add: object_legacy_store_def existsSync_def)
  have h4: "listMacroFiles object_legacy_store = []"
    by (simp add: object_legacy_store_def listMacroFiles_def)
  show ?thesis
    using migrate_unreadable_legacy[OF h1 h2, of "''2025-06-01T00:00:00.000Z''"]
      migrate_unreadable_legacy[OF h3 h4, of "''2025-06-01T00:00:00.000Z''"]
    by (simp add: empty_store_def object_legacy_store_def store_eval backupLegacyMacros_def)
qed

text \<open>A legacy file holding \<^verbatim>\<open>{"macros": []}\<close> is migrated, with the marker written.\<close>

theorem non_array_legacy_counterexample:
  "\<not> existsSync object_legacy_store MIGRATED_MARKER
   \<and> listMacroFiles object_legacy_store = []
   \<and> legacy object_legacy_store = Some (Json (JObj [(''macros'', JArr [])]))
   \<and> snd (migrateLegacyMacrosIfNeeded ''2025-06-01T00:00:00.000Z'' object_legacy_store)
       = Inr (Migrated 0)
   \<and> snd (migrateLegacyMacrosIfNeeded ''2025-06-01T00:00:00.000Z'' object_legacy_store)
       \<noteq> Inr (NotMigrated read_failed)
   \<and> existsSync (fst (migrateLegacyMacrosIfNeeded ''2025-06-01T00:00:00.000Z'' object_legacy_store))
        MIGRATED_MARKER"
  by (simp add: object_legacy_store_def migrate_eval store_eval ID_MIN_def ID_MAX_def)

lemma migrate_marker:
  "existsSync s MIGRATED_MARKER \<Longrightarrow>
     migrateLegacyMacrosIfNeeded now s = (s, Inr (NotMigrated marker))"
  by (simp add: migrateLegacyMacrosIfNeeded_def ensureMacrosDir_def)

text \<open>
  C4. With no marker and no per-record file, a legacy array of more than 999 records makes
  the migration return \<^verbatim>\<open>range-exceeded\<close>. The directory (so the per-record files
  and the marker), the settings and the legacy file are left as they were. The legacy file
  has been copied to the backup file by then, if there was no backup: that write does
  happen.
\<close>

theorem migrate_range_exceeded:
  assumes "\<not> existsSync s MIGRATED_MARKER" and "listMacroFiles s = []"
    and "legacy s = Some (Json (JArr recs))" and "length recs > 999"
  shows "migrateLegacyMacrosIfNeeded now s = (backupLegacyMacros s, Inr (NotMigrated range_exceeded))
       \<and> macros (fst (migrateLegacyMacrosIfNeeded now s)) = macros s
       \<and> settings (fst (migrateLegacyMacrosIfNeeded now s)) = settings s
       \<and> legacy (fst (migrateLegacyMacrosIfNeeded now s)) = legacy s
       \<and> backup (fst (migrateLegacyMacrosIfNeeded now s))
           = (if backup s = None then legacy s else backup s)
       \<and> \<not> existsSync (fst (migrateLegacyMacrosIfNeeded now s)) MIGRATED_MARKER"
proof -
  have r: "migrateLegacyMacrosIfNeeded now s =
             (backupLegacyMacros s, Inr (NotMigrated range_exceeded))"
    using assms
    by (simp add: migrateLegacyMacrosIfNeeded_def ensureMacrosDir_def readLegacyMacros_def
        ID_MIN_def ID_MAX_def)
  show ?thesis
    using assms(1) by (simp add: r backupLegacyMacros_fields existsSync_backup)
qed

theorem migrate_range_exceeded_witness:
  "migrateLegacyMacrosIfNeeded ''2025-06-01T00:00:00.000Z'' oversized_legacy_store
     = (oversized_legacy_store\<lparr>backup := Some (Json (JArr (replicate 1000 (JObj []))))\<rparr>,
        Inr (NotMigrated range_exceeded))"
proof -
  have h1: "\<not> existsSync oversized_legacy_store MIGRATED_MARKER"
    by (simp add: oversized_legacy_store_def existsSync_def)
  have h2: "listMacroFiles oversized_legacy_store = []"
    by (simp add: oversized_legacy_store_def listMacroFiles_def)
  have h3: "legacy oversized_legacy_store = Some (Json (JArr (replicate 1000 (JObj []))))"
    by (simp add: oversized_legacy_store_def)
  have h4: "length (replicate 1000 (JObj [])) > 999"
    by simp
  show ?thesis
    using migrate_range_exceeded[OF h1 h2 h3 h4, of "''2025-06-01T00:00:00.000Z''"]
    by (simp add: oversized_legacy_store_def backupLegacyMacros_def)
qed

text \<open>A legacy file of 1000 records and no backup: the call ends with a backup file.\<close>

theorem range_exceeded_counterexample:
  "\<not> existsSync oversized_legacy_store MIGRATED_MARKER
   \<and> listMacroFiles oversized_legacy_store = []
   \<and> legacy oversized_legacy_store = Some (Json (JArr (replicate 1000 (JObj []))))
   \<and> length (replicate 1000 (JObj [])) > 999
   \<and> snd (migrateLegacyMacrosIfNeeded ''2025-06-01T00:00:00.000Z'' oversized_legacy_store)
       = Inr (NotMigrated range_exceeded)
   \<and> backup oversized_legacy_store = None
   \<and> backup (fst (migrateLegacyMacrosIfNeeded ''2025-06-01T00:00:00.000Z'' oversized_legacy_store))
       = Some (Json (JArr (replicate 1000 (JObj []))))"
  by (simp add: oversized_legacy_store_def migrate_eval store_eval ID_MIN_def ID_MAX_def)

text \<open>
  C3. A call that follows a call that returned changes nothing at all, so the per-record
  files stay as they are. It answers \<^verbatim>\<open>marker\<close> when the first call answered
  \<^verbatim>\<open>marker\<close>, \<^verbatim>\<open>existing\<close> or \<^verbatim>\<open>{migrated: true}\<close>, the outcomes that
  leave the marker behind; after \<^verbatim>\<open>no-legacy\<close>, \<^verbatim>\<open>read-failed\<close> or
  \<^verbatim>\<open>range-exceeded\<close> there is no marker and the second call repeats the answer of the
  first.
\<close>

theorem migrate_twice:
  assumes "migrateLegacyMacrosIfNeeded now s = (s1, Inr r1)"
  shows "migrateLegacyMacrosIfNeeded now' s1 =
           (s1, Inr (if r1 = NotMigrated no_legacy \<or> r1 = NotMigrated read_failed
                        \<or> r1 = NotMigrated range_exceeded
                     then r1 else NotMigrated marker))
       \<and> listMacroFiles (fst (migrateLegacyMacrosIfNeeded now' s1)) = listMacroFiles s1"
proof -
  have main: "migrateLegacyMacrosIfNeeded now' s1 =
           (s1, Inr (if r1 = NotMigrated no_legacy \<or> r1 = NotMigrated read_failed
                        \<or> r1 = NotMigrated range_exceeded
                     then r1 else NotMigrated marker))"
  proof (cases "existsSync s MIGRATED_MARKER")
    case True
    then have "s1 = s" "r1 = NotMigrated marker"
      using assms by (simp_all add: migrate_marker)
    then show ?thesis using True by (simp add: migrate_marker)
  next
    case nomark: False
    show ?thesis
    proof (cases "listMacroFiles s = []")
      case False
      then have "existsSync s1 MIGRATED_MARKER" "r1 = NotMigrated existing"
        using assms nomark
        by (auto simp add: migrateLegacyMacrosIfNeeded_def ensureMacrosDir_def
            existsSync_writeMigratedMarker)
      then show ?thesis by (simp add: migrate_marker)
    next
      case nofiles: True
      show ?thesis
      proof (cases "readLegacyMacros s")
        case None
        then have gen: "migrateLegacyMacrosIfNeeded n s =
            (s, Inr (NotMigrated (if legacy s = None then no_legacy else read_failed)))" for n
          using nomark nofiles
          by (simp add: migrateLegacyMacrosIfNeeded_def ensureMacrosDir_def)
        have "s1 = s" "r1 = NotMigrated (if legacy s = None then no_legacy else read_failed)"
          using assms gen[of now] by auto
        then show ?thesis by (simp add: gen)
      next
        case (Some recs)
        then have leg: "legacy s \<noteq> None"
          by (cases "legacy s") (simp_all add: readLegacyMacros_def)
        show ?thesis
        proof (cases "int (length recs) > ID_MAX - ID_MIN + 1")
          case True
          then have s1: "s1 = backupLegacyMacros s" "r1 = NotMigrated range_exceeded"
            using assms nomark nofiles Some leg
            by (simp_all add: migrateLegacyMacrosIfNeeded_def ensureMacrosDir_def)
          show ?thesis
            using nomark nofiles Some leg True
            by (simp add: s1 migrateLegacyMacrosIfNeeded_def ensureMacrosDir_def Let_def
                existsSync_backup listMacroFiles_backup readLegacyMacros_backup
                backupLegacyMacros_idem backupLegacyMacros_fields)
        next
          case False
          then obtain n where "existsSync s1 MIGRATED_MARKER" "r1 = Migrated n"
            using assms nomark nofiles Some leg
            by (auto simp add: migrateLegacyMacrosIfNeeded_def ensureMacrosDir_def
                existsSync_writeMigratedMarker split: prod.splits sum.splits)
          then show ?thesis by (simp add: migrate_marker)
        qed
      qed
    qed
  qed
  then show ?thesis by simp
qed

text \<open>On a fresh installation both calls answer \<^verbatim>\<open>no-legacy\<close>.\<close>

theorem migrate_twice_counterexample:
  "migrateLegacyMacrosIfNeeded ''2025-06-01T00:00:00.000Z'' empty_store
     = (empty_store, Inr (NotMigrated no_legacy))
   \<and> migrateLegacyMacrosIfNeeded ''2025-06-01T00:00:01.000Z'' empty_store
     = (empty_store, Inr (NotMigrated no_legacy))
   \<and> NotMigrated no_legacy \<noteq> NotMigrated marker"
  by (simp add: empty_store_def migrate_eval store_eval)


lemma two_legacy_run:
  "migrateLegacyMacrosIfNeeded ''2025-06-01T00:00:00.000Z'' two_legacy_store
     = (two_legacy_migrated, Inr (Migrated 2))"
  by (simp add: two_legacy_store_def two_legacy_records_def two_legacy_migrated_def
      migrate_eval store_eval text_eval id_eval Let_def)

theorem migrate_twice_witness:
  "migrateLegacyMacrosIfNeeded ''2025-06-01T00:00:00.000Z'' two_legacy_store
     = (two_legacy_migrated, Inr (Migrated 2))
   \<and> migrateLegacyMacrosIfNeeded ''2025-06-02T00:00:00.000Z'' two_legacy_migrated
     = (two_legacy_migrated, Inr (NotMigrated marker))"
  using migrate_twice[OF two_legacy_run, of "''2025-06-02T00:00:00.000Z''"] two_legacy_run
  by simp

section \<open>The migration loop\<close>

lemma update_fresh: "k \<notin> fst ` set xs \<Longrightarrow> AList.update k v xs = xs @ [(k, v)]"
  by (induction xs) auto


lemma migrated_macro_id [simp]:
  "String_val (get_prop ''id'' (migrated_macro now newId r)) = newId"
  by (simp add: migrated_macro_def String_val_def)

lemma new_id_inj: "new_id i = new_id j \<Longrightarrow> i = j"
  using String_int_inj[of "ID_MIN + int i" "ID_MIN + int j"] by (simp add: new_id_def)

lemma new_name_inj: "new_id i @ MACRO_EXT = new_id j @ MACRO_EXT \<Longrightarrow> i = j"
  using new_id_inj by simp

lemma upt_shift: "[k..<k + length (r # rest)] = k # [Suc k..<Suc k + length rest]"
  by (subst upt_rec) simp

lemma idmap_from_Cons:
  "idMap ++ idmap_from k (r # rest) = (idMap(legacy_key r \<mapsto> new_id k)) ++ idmap_from (Suc k) rest"
proof -
  have "idmap_from k (r # rest) = [legacy_key r \<mapsto> new_id k] ++ idmap_from (Suc k) rest"
    unfolding idmap_from_def upt_shift by simp
  then show ?thesis
    by (intro ext) (simp add: map_add_def split: option.splits)
qed

lemma new_entries_Cons:
  "new_entries now k (r # rest) =
     (new_id k @ MACRO_EXT, Json (migrated_macro now (new_id k) r)) # new_entries now (Suc k) rest"
  unfolding new_entries_def upt_shift by simp

lemma migrate_each_run:
  assumes "JNull \<notin> set recs"
    and "\<forall>j < length recs. new_id (k + j) @ MACRO_EXT \<notin> fst ` set (macros s)"
  shows "migrate_each now recs k idMap s =
           (s\<lparr>macros := macros s @ new_entries now k recs\<rparr>, Inr (idMap ++ idmap_from k recs))"
  using assms
proof (induction recs arbitrary: k idMap s)
  case Nil
  then show ?case by (simp add: new_entries_def idmap_from_def)
next
  case (Cons r rest)
  let ?name = "new_id k @ MACRO_EXT"
  let ?m = "migrated_macro now (new_id k) r"
  have fresh: "?name \<notin> fst ` set (macros s)"
    using Cons.prems(2)[rule_format, of 0] by simp
  have w: "writeMacroFile ?m s = s\<lparr>macros := macros s @ [(?name, Json ?m)]\<rparr>"
    using fresh by (simp add: writeMacroFile_def writeFileSync_def ensureMacrosDir_def update_fresh)
  have p1: "JNull \<notin> set rest" using Cons.prems(1) by simp
  have p2: "\<forall>j < length rest. new_id (Suc k + j) @ MACRO_EXT
              \<notin> fst ` set (macros (s\<lparr>macros := macros s @ [(?name, Json ?m)]\<rparr>))"
  proof (intro allI impI)
    fix j assume j: "j < length rest"
    have a: "new_id (Suc k + j) @ MACRO_EXT \<notin> fst ` set (macros s)"
      using Cons.prems(2)[rule_format, of "Suc j"] j by simp
    have b: "new_id (Suc k + j) @ MACRO_EXT \<noteq> ?name"
      using new_name_inj[of "Suc k + j" k] by auto
    show "new_id (Suc k + j) @ MACRO_EXT
              \<notin> fst ` set (macros (s\<lparr>macros := macros s @ [(?name, Json ?m)]\<rparr>))"
      using a b by auto
  qed
  have step: "migrate_each now (r # rest) k idMap s =
      migrate_each now rest (Suc k) (idMap(legacy_key r \<mapsto> new_id k)) (writeMacroFile ?m s)"
  proof -
    have "r \<noteq> JNull" using Cons.prems(1) by auto
    then show ?thesis by (simp add: Let_def new_id_def legacy_key_def)
  qed
  have "migrate_each now (r # rest) k idMap s =
      migrate_each now rest (Suc k) (idMap(legacy_key r \<mapsto> new_id k))
        (s\<lparr>macros := macros s @ [(?name, Json ?m)]\<rparr>)"
    by (simp only: step w)
  also have "\<dots> =
      (s\<lparr>macros := macros s @ [(?name, Json ?m)]\<rparr>
         \<lparr>macros := macros (s\<lparr>macros := macros s @ [(?name, Json ?m)]\<rparr>)
                     @ new_entries now (Suc k) rest\<rparr>,
       Inr ((idMap(legacy_key r \<mapsto> new_id k)) ++ idmap_from (Suc k) rest))"
    by (rule Cons.IH[OF p1 p2])
  finally show ?case
    by (simp add: new_entries_Cons idmap_from_Cons)
qed



lemma updateKeyboardBindings_other:
  "macros (updateKeyboardBindings idMap s) = macros s"
  "legacy (updateKeyboardBindings idMap s) = legacy s"
  "backup (updateKeyboardBindings idMap s) = backup s"
  by (simp_all add: updateKeyboardBindings_def Let_def
      split: option.splits file_text.splits prod.splits)


lemma isMacroFile_ext: "isMacroFile (x @ MACRO_EXT)"
proof -
  have "toLowerCase (x @ MACRO_EXT) = toLowerCase x @ MACRO_EXT"
    by (simp add: toLowerCase_def MACRO_EXT_def lower_char_def)
  then show ?thesis by (simp add: isMacroFile_def suffix_def)
qed

lemma no_macro_files_fresh:
  assumes "listMacroFiles s = []"
  shows "x @ MACRO_EXT \<notin> fst ` set (macros s)"
proof
  assume "x @ MACRO_EXT \<in> fst ` set (macros s)"
  then have "x @ MACRO_EXT \<in> set (listMacroFiles s)"
    by (simp add: listMacroFiles_def isMacroFile_ext)
  then show False using assms by simp
qed


lemma new_entries_nth:
  assumes "i < length recs"
  shows "new_entries now k recs ! i =
           (new_id (k + i) @ MACRO_EXT, Json (migrated_macro now (new_id (k + i)) (recs ! i)))"
  using assms by (simp add: new_entries_def)

lemma length_new_entries [simp]: "length (new_entries now k recs) = length recs"
  by (simp add: new_entries_def)

lemma map_fst_new_entries:
  "map fst (new_entries now k recs) = map (\<lambda>i. new_id i @ MACRO_EXT) [k..<k + length recs]"
  by (rule nth_equalityI) (simp_all add: new_entries_nth)

lemma distinct_new_names: "distinct (map fst (new_entries now k recs))"
proof -
  have "inj_on (\<lambda>i. new_id i @ MACRO_EXT) (set [k..<k + length recs])"
    using new_name_inj by (auto simp add: inj_on_def)
  then show ?thesis by (simp add: map_fst_new_entries distinct_map)
qed

lemma map_of_new_entries:
  assumes "i < length recs"
  shows "map_of (new_entries now k recs) (new_id (k + i) @ MACRO_EXT) =
           Some (Json (migrated_macro now (new_id (k + i)) (recs ! i)))"
proof -
  have "new_entries now k recs ! i \<in> set (new_entries now k recs)"
    using assms by (intro nth_mem) simp
  then show ?thesis
    using distinct_new_names[of now k recs] new_entries_nth[OF assms, of now k]
    by (simp add: map_of_is_SomeI)
qed

section \<open>Migration of a legacy file within the range\<close>


lemma macros_writeMigratedMarker:
  "macros (writeMigratedMarker s) = AList.update MIGRATED_MARKER Malformed (macros s)"
  "legacy (writeMigratedMarker s) = legacy s"
  "backup (writeMigratedMarker s) = backup s"
  "settings (writeMigratedMarker s) = settings s"
  by (simp_all add: writeMigratedMarker_def writeFileSync_def)

lemma map_of_writeMigratedMarker:
  "name \<noteq> MIGRATED_MARKER \<Longrightarrow>
     map_of (macros (writeMigratedMarker s)) name = map_of (macros s) name"
  by (simp add: macros_writeMigratedMarker update_conv')

lemma isMacroFile_not_marker: "isMacroFile name \<Longrightarrow> name \<noteq> MIGRATED_MARKER"
  by (auto simp add: MIGRATED_MARKER_def text_eval)

lemma parseMacroFile_cong:
  "map_of (macros s) name = map_of (macros s') name' \<Longrightarrow>
     parseMacroFile s name = parseMacroFile s' name'"
  by (simp add: parseMacroFile_def)










lemma listMacroFiles_migrated:
  assumes "listMacroFiles s = []"
  shows "filter isMacroFile (map fst (macros s @ new_entries now 0 recs)) =
           map (\<lambda>i. new_id i @ MACRO_EXT) [0..<length recs]"
proof -
  have "filter isMacroFile (map fst (new_entries now 0 recs)) = map fst (new_entries now 0 recs)"
    by (simp add: map_fst_new_entries isMacroFile_ext)
  then show ?thesis
    using assms by (simp add: listMacroFiles_def map_fst_new_entries)
qed

lemma map_of_migrated:
  assumes "listMacroFiles s = []" and "i < length recs"
  shows "map_of (macros s @ new_entries now 0 recs) (new_id i @ MACRO_EXT) =
           Some (Json (migrated_macro now (new_id i) (recs ! i)))"
proof -
  have "map_of (macros s) (new_id i @ MACRO_EXT) = None"
    using no_macro_files_fresh[OF assms(1)] by (simp add: map_of_eq_None_iff)
  then show ?thesis
    using map_of_new_entries[OF assms(2), of now 0] by (simp add: map_add_def)
qed




section \<open>What the store returns\<close>

lemma parseMacroFile_Some:
  "parseMacroFile s name = Some m \<longleftrightarrow>
     map_of (macros s) name = Some (Json m) \<and> truthy m \<and> typeof_object m
     \<and> truthy_val (get_prop ''id'' m) \<and> isValidMacroId (get_prop ''id'' m)"
  by (auto simp add: parseMacroFile_def split: option.splits file_text.splits)

lemma set_collect_macros:
  "set (collect_macros s names) = {m. \<exists>name \<in> set names. parseMacroFile s name = Some m}"
  by (induction names) (auto split: option.splits)

lemma getMacro_Some:
  assumes "getMacro s raw = Some m"
  shows "\<exists>n. normalizeMacroId raw = Some n \<and> parseMacroFile s (getMacroPath n) = Some m"
  using assms by (auto simp add: getMacro_def split: option.splits if_splits)

lemma readMacros_Inr:
  assumes "readMacros t s = (s', Inr ms)"
  shows "\<exists>s1 r. migrateLegacyMacrosIfNeeded (migration_now t) s = (s1, Inr r)
           \<and> s' = ensureDefaultMacroIfEmpty t s1
           \<and> ms = sort_key sort_num (collect_macros s' (listMacroFiles s'))"
proof (cases "migrateLegacyMacrosIfNeeded (migration_now t) s")
  case (Pair s1 res)
  then show ?thesis
    using assms by (cases res) (auto simp add: readMacros_def ensureMacrosDir_def Let_def)
qed

lemma isValidMacroId_iff:
  "isValidMacroId v \<longleftrightarrow> (\<exists>n. parseInt10 (String_val v) = Some n \<and> 9001 \<le> n \<and> n \<le> 9999)"
  by (cases "parseInt10 (String_val v)") (simp_all add: isValidMacroId_def ID_MIN_def ID_MAX_def)

text \<open>
  C9. Every record returned by \<^verbatim>\<open>getMacro\<close> or \<^verbatim>\<open>readMacros\<close> has a truthy
  \<^verbatim>\<open>id\<close> that passes \<^verbatim>\<open>isValidMacroId\<close>: the text \<^verbatim>\<open>String(id)\<close> starts, after
  optional white space, with a decimal numeral whose value lies in 9001 to 9999. The
  identifier itself need not be a numeral: \<^verbatim>\<open>parseInt\<close> ignores what follows the
  digits. A record of \<^verbatim>\<open>readMacros\<close> is the content of a per-record file. A file whose
  content has no identifier or one that fails the test is never returned, whatever its
  name.
\<close>

theorem returned_ids_valid:
  "(getMacro s raw = Some m \<longrightarrow>
      truthy_val (get_prop ''id'' m) \<and> isValidMacroId (get_prop ''id'' m))
   \<and> (readMacros t s = (s', Inr ms) \<longrightarrow>
        (\<forall>m \<in> set ms. truthy_val (get_prop ''id'' m) \<and> isValidMacroId (get_prop ''id'' m)
           \<and> (\<exists>name \<in> set (listMacroFiles s'). map_of (macros s') name = Some (Json m))))
   \<and> (\<forall>v. isValidMacroId v \<longleftrightarrow>
          (\<exists>n. parseInt10 (String_val v) = Some n \<and> 9001 \<le> n \<and> n \<le> 9999))
   \<and> (\<forall>name parsed. map_of (macros s) name = Some (Json parsed)
          \<and> \<not> (truthy_val (get_prop ''id'' parsed) \<and> isValidMacroId (get_prop ''id'' parsed))
          \<longrightarrow> parseMacroFile s name = None
              \<and> (\<forall>raw' n. normalizeMacroId raw' = Some n \<and> getMacroPath n = name
                     \<longrightarrow> getMacro s raw' = None))"
proof (intro conjI impI allI ballI)
  assume "getMacro s raw = Some m"
  then obtain n where "parseMacroFile s (getMacroPath n) = Some m"
    using getMacro_Some by blast
  then show "truthy_val (get_prop ''id'' m)" and "isValidMacroId (get_prop ''id'' m)"
    by (simp_all add: parseMacroFile_Some)
next
  fix m'
  assume rd: "readMacros t s = (s', Inr ms)" and m': "m' \<in> set ms"
  from readMacros_Inr[OF rd] have "ms = sort_key sort_num (collect_macros s' (listMacroFiles s'))"
    by blast
  then have "m' \<in> set (collect_macros s' (listMacroFiles s'))"
    using m' by simp
  then obtain name where name: "name \<in> set (listMacroFiles s')" "parseMacroFile s' name = Some m'"
    by (auto simp add: set_collect_macros)
  show "truthy_val (get_prop ''id'' m')" and "isValidMacroId (get_prop ''id'' m')"
    using name(2) by (simp_all add: parseMacroFile_Some)
  show "\<exists>name \<in> set (listMacroFiles s'). map_of (macros s') name = Some (Json m')"
    using name by (auto simp add: parseMacroFile_Some)
next
  fix v
  show "isValidMacroId v \<longleftrightarrow>
          (\<exists>n. parseInt10 (String_val v) = Some n \<and> 9001 \<le> n \<and> n \<le> 9999)"
    by (rule isValidMacroId_iff)
next
  fix name parsed
  assume a: "map_of (macros s) name = Some (Json parsed)
          \<and> \<not> (truthy_val (get_prop ''id'' parsed) \<and> isValidMacroId (get_prop ''id'' parsed))"
  then show p: "parseMacroFile s name = None"
    by (auto simp add: parseMacroFile_def)
  fix raw' n
  assume "normalizeMacroId raw' = Some n \<and> getMacroPath n = name"
  then show "getMacro s raw' = None"
    using p by (auto simp add: getMacro_def)
qed

lemma suffixed_id_get:
  "getMacro suffixed_id_store (Some (JStr ''9001'')) = Some suffixed_id_macro"
  by (simp add: store_eval id_eval text_eval suffixed_id_store_def suffixed_id_macro_def)

lemma suffixed_id_read:
  "readMacros example_clock suffixed_id_store = (suffixed_id_store, Inr [suffixed_id_macro])"
  by (simp add: readMacros_def migrate_eval store_eval id_eval text_eval
      ensureDefaultMacroIfEmpty_def suffixed_id_store_def suffixed_id_macro_def Let_def)

theorem returned_ids_valid_witness:
  "getMacro suffixed_id_store (Some (JStr ''9001'')) = Some suffixed_id_macro
   \<and> readMacros example_clock suffixed_id_store = (suffixed_id_store, Inr [suffixed_id_macro])
   \<and> truthy_val (get_prop ''id'' suffixed_id_macro)
   \<and> isValidMacroId (get_prop ''id'' suffixed_id_macro)
   \<and> parseInt10 (String_val (get_prop ''id'' suffixed_id_macro)) = Some 9001"
proof -
  have p: "parseInt10 (String_val (get_prop ''id'' suffixed_id_macro)) = Some 9001"
    by (simp add: suffixed_id_macro_def text_eval)
  show ?thesis
    using returned_ids_valid[of suffixed_id_store "Some (JStr ''9001'')" suffixed_id_macro
        example_clock suffixed_id_store "[suffixed_id_macro]"]
      suffixed_id_get suffixed_id_read p
    by simp
qed

text \<open>The file \<^verbatim>\<open>9001.macro\<close> with the identifier \<^verbatim>\<open>"9001abc"\<close> is returned by both
  functions.\<close>

theorem non_numeric_id_counterexample:
  "getMacro suffixed_id_store (Some (JStr ''9001'')) = Some suffixed_id_macro
   \<and> snd (readMacros example_clock suffixed_id_store) = Inr [suffixed_id_macro]
   \<and> get_prop ''id'' suffixed_id_macro = Some (JStr ''9001abc'')
   \<and> \<not> numeric_string (JStr ''9001abc'')"
  using suffixed_id_get suffixed_id_read
  by (simp add: suffixed_id_macro_def numeric_string_def is_digit_def)

section \<open>The directory after the implicit migration\<close>

lemma migrate_each_Inr:
  "migrate_each now recs k idMap s = (s2, Inr idMap') \<Longrightarrow> JNull \<notin> set recs"
proof (induction recs arbitrary: k idMap s)
  case Nil
  then show ?case by simp
next
  case (Cons r rest)
  have r: "r \<noteq> JNull" using Cons.prems by (auto split: if_splits)
  then have "migrate_each now rest (Suc k)
               (idMap(String_val (get_prop ''id'' r) \<mapsto> String_int (ID_MIN + int k)))
               (writeMacroFile (migrated_macro now (String_int (ID_MIN + int k)) r) s)
             = (s2, Inr idMap')"
    using Cons.prems by (simp add: Let_def)
  then have "JNull \<notin> set rest" by (rule Cons.IH)
  then show ?case using r by auto
qed

lemma migrate_run_read:
  assumes "\<not> existsSync s MIGRATED_MARKER" and "listMacroFiles s = []"
    and "readLegacyMacros s = Some recs" and "length recs \<le> 999"
    and "JNull \<notin> set recs"
  shows "migrateLegacyMacrosIfNeeded now s =
           (writeMigratedMarker
              (updateKeyboardBindings (idmap_from 0 recs)
                 ((backupLegacyMacros s)\<lparr>macros := macros s @ new_entries now 0 recs\<rparr>)),
            Inr (Migrated (length recs)))"
proof -
  let ?s1 = "backupLegacyMacros s"
  have fresh: "\<forall>j < length recs. new_id (0 + j) @ MACRO_EXT \<notin> fst ` set (macros ?s1)"
    using no_macro_files_fresh[OF assms(2)] by (simp add: backupLegacyMacros_fields)
  have loop: "migrate_each now recs 0 Map.empty ?s1 =
      (?s1\<lparr>macros := macros s @ new_entries now 0 recs\<rparr>, Inr (idmap_from 0 recs))"
    using migrate_each_run[OF assms(5) fresh, of now Map.empty]
    by (simp add: backupLegacyMacros_fields)
  have leg: "legacy s \<noteq> None"
    using assms(3) by (cases "legacy s") (simp_all add: readLegacyMacros_def)
  show ?thesis
    using assms(1,2,3,4) leg
    by (simp add: migrateLegacyMacrosIfNeeded_def ensureMacrosDir_def Let_def loop
        ID_MIN_def ID_MAX_def)
qed

lemma migrate_Inr_cases:
  assumes "migrateLegacyMacrosIfNeeded now s = (s1, Inr r)"
  shows "macros s1 = macros s
       \<or> macros s1 = AList.update MIGRATED_MARKER Malformed (macros s)
       \<or> (\<exists>recs. listMacroFiles s = [] \<and> length recs \<le> 999
             \<and> macros s1 = AList.update MIGRATED_MARKER Malformed
                              (macros s @ new_entries now 0 recs))"
proof (cases "existsSync s MIGRATED_MARKER")
  case True
  then show ?thesis using assms by (simp add: migrate_marker)
next
  case nomark: False
  show ?thesis
  proof (cases "listMacroFiles s = []")
    case False
    then have "macros s1 = AList.update MIGRATED_MARKER Malformed (macros s)"
      using assms nomark
      by (auto simp add: migrateLegacyMacrosIfNeeded_def ensureMacrosDir_def
          macros_writeMigratedMarker backupLegacyMacros_fields)
    then show ?thesis by simp
  next
    case nofiles: True
    show ?thesis
    proof (cases "readLegacyMacros s")
      case None
      then have "s1 = s"
        using assms nomark nofiles
        by (auto simp add: migrateLegacyMacrosIfNeeded_def ensureMacrosDir_def split: if_splits)
      then show ?thesis by simp
    next
      case (Some recs)
      have leg: "legacy s \<noteq> None"
        using Some by (cases "legacy s") (simp_all add: readLegacyMacros_def)
      show ?thesis
      proof (cases "int (length recs) > ID_MAX - ID_MIN + 1")
        case True
        then have "s1 = backupLegacyMacros s"
          using assms nomark nofiles Some leg
          by (simp add: migrateLegacyMacrosIfNeeded_def ensureMacrosDir_def)
        then show ?thesis by (simp add: backupLegacyMacros_fields)
      next
        case False
        then have len: "length recs \<le> 999" by (simp add: ID_MIN_def ID_MAX_def)
        obtain s2 res where loop: "migrate_each now recs 0 Map.empty (backupLegacyMacros s) = (s2, res)"
          by (cases "migrate_each now recs 0 Map.empty (backupLegacyMacros s)")
        have "\<exists>idMap. res = Inr idMap"
          using assms nomark nofiles Some leg False loop
          by (cases res) (simp_all add: migrateLegacyMacrosIfNeeded_def ensureMacrosDir_def)
        then have nonull: "JNull \<notin> set recs"
          using loop migrate_each_Inr by blast
        have "s1 = writeMigratedMarker
              (updateKeyboardBindings (idmap_from 0 recs)
                 ((backupLegacyMacros s)\<lparr>macros := macros s @ new_entries now 0 recs\<rparr>))"
          using assms migrate_run_read[OF nomark nofiles Some len nonull, of now] by simp
        then have "macros s1 = AList.update MIGRATED_MARKER Malformed (macros s @ new_entries now 0 recs)"
          by (simp add: macros_writeMigratedMarker updateKeyboardBindings_other)
        then show ?thesis using nofiles len by blast
      qed
    qed
  qed
qed

lemma named_by_id_iff:
  "named_by_id s \<longleftrightarrow>
     (\<forall>name \<in> set (listMacroFiles s). \<forall>m. parseMacroFile s name = Some m
        \<longrightarrow> name = getMacroPath (String_int (sort_num m)))"
  by (auto simp add: named_by_id_def list_all_iff split: option.splits)

lemma listMacroFiles_cong: "macros s = macros s' \<Longrightarrow> listMacroFiles s = listMacroFiles s'"
  by (simp add: listMacroFiles_def)

lemma named_by_id_cong:
  assumes "macros s = macros s'"
  shows "named_by_id s = named_by_id s'"
  using assms parseMacroFile_cong[of s _ s'] listMacroFiles_cong[OF assms]
  by (simp add: named_by_id_iff)

lemma named_marker:
  assumes "distinct (map fst (macros s))" and "named_by_id s"
    and "macros s1 = AList.update MIGRATED_MARKER Malformed (macros s)"
  shows "distinct (map fst (macros s1)) \<and> named_by_id s1"
proof -
  have m: "macros s1 = macros (writeMigratedMarker s)"
    using assms(3) by (simp add: macros_writeMigratedMarker)
  have l: "listMacroFiles s1 = listMacroFiles s"
    using listMacroFiles_cong[OF m] by (simp add: listMacroFiles_writeMigratedMarker)
  have p: "parseMacroFile s1 name = parseMacroFile s name" if "name \<in> set (listMacroFiles s)" for name
  proof -
    have "isMacroFile name" using that by (simp add: listMacroFiles_def)
    then have "name \<noteq> MIGRATED_MARKER" by (rule isMacroFile_not_marker)
    then have "map_of (macros s1) name = map_of (macros s) name"
      by (simp add: assms(3) update_conv')
    then show ?thesis by (rule parseMacroFile_cong)
  qed
  have "distinct (map fst (macros s1))"
    using assms(1) by (simp add: assms(3) distinct_update)
  moreover have "named_by_id s1"
    using assms(2) by (simp add: named_by_id_iff l p)
  ultimately show ?thesis by simp
qed

lemma sort_num_migrated: "sort_num (migrated_macro now (new_id i) r) = ID_MIN + int i"
  by (simp add: sort_num_def macro_num_def new_id_def parseInt10_String_int)

lemma named_migrated:
  assumes "distinct (map fst (macros s))" and "listMacroFiles s = []" and "length recs \<le> 999"
    and "macros s2 = macros s @ new_entries now 0 recs"
  shows "distinct (map fst (macros s2)) \<and> named_by_id s2"
proof -
  have disj: "set (map fst (macros s)) \<inter> set (map fst (new_entries now 0 recs)) = {}"
  proof -
    have "k \<notin> set (map fst (macros s))" if "k \<in> set (map fst (new_entries now 0 recs))" for k
    proof -
      have "k \<in> set (map (\<lambda>i. new_id i @ MACRO_EXT) [0..<0 + length recs])"
        using that by (simp only: map_fst_new_entries)
      then obtain i where "k = new_id i @ MACRO_EXT"
        by auto
      then show ?thesis using no_macro_files_fresh[OF assms(2), of "new_id i"] by simp
    qed
    then show ?thesis by blast
  qed
  have d: "distinct (map fst (macros s2))"
    using assms(1) distinct_new_names[of now 0 recs] disj by (simp add: assms(4))
  have l: "listMacroFiles s2 = map (\<lambda>i. new_id i @ MACRO_EXT) [0..<length recs]"
    using listMacroFiles_migrated[OF assms(2), of now recs] by (simp add: listMacroFiles_def assms(4))
  have "name = getMacroPath (String_int (sort_num m))"
    if "name \<in> set (listMacroFiles s2)" and "parseMacroFile s2 name = Some m" for name m
  proof -
    have "name \<in> (\<lambda>i. new_id i @ MACRO_EXT) ` {0..<length recs}"
      using that(1) unfolding l by simp
    then obtain i where i: "i < length recs" "name = new_id i @ MACRO_EXT"
      by auto
    have "map_of (macros s2) name = Some (Json (migrated_macro now (new_id i) (recs ! i)))"
      using map_of_migrated[OF assms(2) i(1), of now] by (simp add: assms(4) i(2))
    then have "m = migrated_macro now (new_id i) (recs ! i)"
      using that(2) by (simp add: parseMacroFile_Some)
    then have "sort_num m = ID_MIN + int i"
      by (simp only: sort_num_migrated)
    then show ?thesis
      by (simp add: i(2) getMacroPath_def new_id_def)
  qed
  then show ?thesis using d by (simp add: named_by_id_iff)
qed

lemma DEFAULT_MACRO_parse:
  assumes "map_of (macros s) name = Some (Json (DEFAULT_MACRO t))"
  shows "parseMacroFile s name = Some (DEFAULT_MACRO t)"
  using assms by (simp add: parseMacroFile_def DEFAULT_MACRO_def id_eval text_eval)

lemma sort_num_DEFAULT: "getMacroPath (String_int (sort_num (DEFAULT_MACRO t))) = ''9001.macro''"
  by (simp add: sort_num_def macro_num_def DEFAULT_MACRO_def id_eval text_eval)

lemma writeMacroFile_DEFAULT:
  assumes "listMacroFiles s = []"
  shows "macros (writeMacroFile (DEFAULT_MACRO t) s) = macros s @ [(''9001.macro'', Json (DEFAULT_MACRO t))]"
proof -
  have "''9001'' @ MACRO_EXT \<notin> fst ` set (macros s)"
    by (rule no_macro_files_fresh[OF assms])
  then have "''9001.macro'' \<notin> fst ` set (macros s)" by (simp add: MACRO_EXT_def)
  then have "AList.update ''9001.macro'' (Json (DEFAULT_MACRO t)) (macros s)
      = macros s @ [(''9001.macro'', Json (DEFAULT_MACRO t))]"
    by (rule update_fresh)
  moreover have "String_val (get_prop ''id'' (DEFAULT_MACRO t)) @ MACRO_EXT = ''9001.macro''"
    by (simp add: DEFAULT_MACRO_def String_val_def MACRO_EXT_def)
  ultimately show ?thesis
    by (simp add: writeMacroFile_def writeFileSync_def ensureMacrosDir_def)
qed

lemma named_default:
  assumes "distinct (map fst (macros s))" and "named_by_id s"
  shows "distinct (map fst (macros (ensureDefaultMacroIfEmpty t s)))
       \<and> named_by_id (ensureDefaultMacroIfEmpty t s)"
proof (cases "ensureDefaultMacroIfEmpty t s = s")
  case True
  then show ?thesis using assms by simp
next
  case False
  then have nofiles: "listMacroFiles s = []"
    and e: "ensureDefaultMacroIfEmpty t s = writeMacroFile (DEFAULT_MACRO t) s"
    by (auto simp add: ensureDefaultMacroIfEmpty_def split: if_splits)
  let ?s2 = "writeMacroFile (DEFAULT_MACRO t) s"
  have m: "macros ?s2 = macros s @ [(''9001.macro'', Json (DEFAULT_MACRO t))]"
    by (rule writeMacroFile_DEFAULT[OF nofiles])
  have fresh: "''9001.macro'' \<notin> fst ` set (macros s)"
    using no_macro_files_fresh[OF nofiles, of "''9001''"] by (simp add: MACRO_EXT_def)
  have d: "distinct (map fst (macros ?s2))"
    using assms(1) fresh by (simp add: m)
  have im: "isMacroFile ''9001.macro''"
    using isMacroFile_ext[of "''9001''"] by (simp add: MACRO_EXT_def)
  have l: "listMacroFiles ?s2 = [''9001.macro'']"
    using nofiles im by (simp add: listMacroFiles_def m)
  have mo: "map_of (macros ?s2) ''9001.macro'' = Some (Json (DEFAULT_MACRO t))"
    using fresh by (simp add: m map_add_def map_of_eq_None_iff[THEN iffD2])
  have "named_by_id ?s2"
    using DEFAULT_MACRO_parse[OF mo] by (simp add: named_by_id_iff l sort_num_DEFAULT)
  then show ?thesis using d e by simp
qed

lemma named_after_migrate:
  assumes "distinct (map fst (macros s))" and "named_by_id s"
    and "migrateLegacyMacrosIfNeeded now s = (s1, Inr r)"
  shows "distinct (map fst (macros s1)) \<and> named_by_id s1"
proof -
  consider (same) "macros s1 = macros s"
    | (mark) "macros s1 = AList.update MIGRATED_MARKER Malformed (macros s)"
    | (migr) recs where "listMacroFiles s = []" "length recs \<le> 999"
        "macros s1 = AList.update MIGRATED_MARKER Malformed (macros s @ new_entries now 0 recs)"
    using migrate_Inr_cases[OF assms(3)] by blast
  then show ?thesis
  proof cases
    case same
    then show ?thesis using assms(1,2) named_by_id_cong[OF same] by simp
  next
    case mark
    then show ?thesis using named_marker[OF assms(1,2)] by simp
  next
    case migr
    let ?s2 = "s\<lparr>macros := macros s @ new_entries now 0 recs\<rparr>"
    have "distinct (map fst (macros ?s2)) \<and> named_by_id ?s2"
      using named_migrated[OF assms(1) migr(1,2), of ?s2 now] by simp
    then show ?thesis
      using named_marker[of ?s2 s1] migr(3) by simp
  qed
qed

lemma distinct_sort_nums:
  assumes "distinct names"
    and "\<forall>name \<in> set names. \<forall>m. parseMacroFile s name = Some m
           \<longrightarrow> name = getMacroPath (String_int (sort_num m))"
  shows "distinct (map sort_num (collect_macros s names))"
  using assms
proof (induction names)
  case Nil
  then show ?case by simp
next
  case (Cons name rest)
  have ih: "distinct (map sort_num (collect_macros s rest))"
    using Cons by simp
  show ?case
  proof (cases "parseMacroFile s name")
    case None
    then show ?thesis using ih by simp
  next
    case (Some m)
    have nm: "name = getMacroPath (String_int (sort_num m))"
      using Cons.prems(2) Some by simp
    have "sort_num m \<notin> sort_num ` set (collect_macros s rest)"
    proof
      assume "sort_num m \<in> sort_num ` set (collect_macros s rest)"
      then obtain m' name' where m': "name' \<in> set rest" "parseMacroFile s name' = Some m'"
          "sort_num m' = sort_num m"
        by (auto simp add: set_collect_macros)
      have "name' = getMacroPath (String_int (sort_num m'))"
        using Cons.prems(2) m'(1,2) by auto
      then have "name' = name" using nm m'(3) by simp
      then show False using Cons.prems(1) m'(1) by simp
    qed
    then show ?thesis using ih Some by simp
  qed
qed

lemma distinct_listMacroFiles:
  "distinct (map fst (macros s)) \<Longrightarrow> distinct (listMacroFiles s)"
  by (simp add: listMacroFiles_def)

lemma collected_valid:
  assumes "m \<in> set (collect_macros s names)"
  shows "macro_num m = Some (sort_num m) \<and> 9001 \<le> sort_num m \<and> sort_num m \<le> 9999"
proof -
  obtain name where "parseMacroFile s name = Some m"
    using assms by (auto simp add: set_collect_macros)
  then have "isValidMacroId (get_prop ''id'' m)" by (simp add: parseMacroFile_Some)
  then obtain n where "parseInt10 (String_val (get_prop ''id'' m)) = Some n" "9001 \<le> n" "n \<le> 9999"
    using isValidMacroId_iff by blast
  then show ?thesis by (simp add: sort_num_def macro_num_def)
qed

text \<open>
  C8. The list \<^verbatim>\<open>readMacros\<close> returns is sorted ascending by the number of the
  identifier, which for every record is an integer from 9001 to 9999. It is strictly
  ascending, with no two records of the same identifier, when the directory has every
  per-record file named after the number of its identifier; \<^verbatim>\<open>readMacros\<close> does not
  compare a file's name with the identifier inside, so a directory that holds a copy of a
  file under another name yields the record twice.
\<close>

theorem readMacros_sorted:
  assumes "readMacros t s = (s', Inr ms)"
  shows "sorted (map sort_num ms)
       \<and> (\<forall>m \<in> set ms. macro_num m = Some (sort_num m) \<and> 9001 \<le> sort_num m \<and> sort_num m \<le> 9999)
       \<and> (distinct (map fst (macros s)) \<and> named_by_id s \<longrightarrow>
            sorted_wrt (<) (map sort_num ms) \<and> distinct (map sort_num ms)
            \<and> distinct (map (get_prop ''id'') ms))"
proof -
  obtain s1 r where mig: "migrateLegacyMacrosIfNeeded (migration_now t) s = (s1, Inr r)"
    and s': "s' = ensureDefaultMacroIfEmpty t s1"
    and ms: "ms = sort_key sort_num (collect_macros s' (listMacroFiles s'))"
    using readMacros_Inr[OF assms] by blast
  have srt: "sorted (map sort_num ms)"
    by (simp add: ms)
  have val: "\<forall>m \<in> set ms. macro_num m = Some (sort_num m) \<and> 9001 \<le> sort_num m \<and> sort_num m \<le> 9999"
    using collected_valid[of _ s' "listMacroFiles s'"] by (simp add: ms)
  have strict: "sorted_wrt (<) (map sort_num ms) \<and> distinct (map sort_num ms)
            \<and> distinct (map (get_prop ''id'') ms)"
    if wf: "distinct (map fst (macros s)) \<and> named_by_id s"
  proof -
    have "distinct (map fst (macros s1)) \<and> named_by_id s1"
      using named_after_migrate[OF _ _ mig] wf by blast
    then have wf': "distinct (map fst (macros s')) \<and> named_by_id s'"
      using named_default[of s1 t] by (simp add: s')
    have "distinct (map sort_num (collect_macros s' (listMacroFiles s')))"
      using distinct_sort_nums[OF distinct_listMacroFiles, of s' s'] wf'
      by (simp add: named_by_id_iff)
    then have d: "distinct (map sort_num ms)"
      by (simp add: ms distinct_map)
    have "inj_on (get_prop ''id'') (set ms)"
      using d by (auto simp add: distinct_map inj_on_def sort_num_def macro_num_def)
    then have d2: "distinct (map (get_prop ''id'') ms)"
      using d by (simp add: distinct_map)
    show ?thesis
      using srt d d2 by (simp add: strict_sorted_iff)
  qed
  show ?thesis using srt val strict by blast
qed

lemma parseInt10_9001: "parseInt10 ''9001'' = Some 9001"
  and parseInt10_9002: "parseInt10 ''9002'' = Some 9002"
  by (simp_all add: parseInt10_def is_ws_def is_digit_def digits_to_nat_def digit_val_def)

lemma two_legacy_read:
  "readMacros example_clock two_legacy_store =
     (two_legacy_migrated,
      Inr [migrated_macro ''2025-06-01T00:00:00.000Z'' ''9001'' (two_legacy_records ! 0),
           migrated_macro ''2025-06-01T00:00:00.000Z'' ''9002'' (two_legacy_records ! Suc 0)])"
proof -
  have l: "listMacroFiles two_legacy_migrated = [''9001.macro'', ''9002.macro'']"
    by (simp add: two_legacy_migrated_def listMacroFiles_def text_eval)
  have e: "ensureDefaultMacroIfEmpty example_clock two_legacy_migrated = two_legacy_migrated"
    by (simp add: ensureDefaultMacroIfEmpty_def l)
  have p1: "parseMacroFile two_legacy_migrated ''9001.macro''
      = Some (migrated_macro ''2025-06-01T00:00:00.000Z'' ''9001'' (two_legacy_records ! 0))"
    by (simp add: two_legacy_migrated_def two_legacy_records_def migrated_macro_def
        parseMacroFile_def id_eval text_eval)
  have p2: "parseMacroFile two_legacy_migrated ''9002.macro''
      = Some (migrated_macro ''2025-06-01T00:00:00.000Z'' ''9002'' (two_legacy_records ! Suc 0))"
    by (simp add: two_legacy_migrated_def two_legacy_records_def migrated_macro_def
        parseMacroFile_def id_eval text_eval)
  have k1: "sort_num (migrated_macro ''2025-06-01T00:00:00.000Z'' ''9001'' (two_legacy_records ! 0)) = 9001"
    by (simp add: sort_num_def macro_num_def parseInt10_9001)
  have k2: "sort_num (migrated_macro ''2025-06-01T00:00:00.000Z'' ''9002'' (two_legacy_records ! Suc 0)) = 9002"
    by (simp add: sort_num_def macro_num_def parseInt10_9002)
  have m: "migration_now example_clock = ''2025-06-01T00:00:00.000Z''"
    by (simp add: example_clock_def)
  show ?thesis
    by (simp add: readMacros_def m two_legacy_run ensureMacrosDir_def e l p1 p2 k1 k2)
qed

theorem readMacros_sorted_witness:
  "readMacros example_clock two_legacy_store =
     (two_legacy_migrated,
      Inr [migrated_macro ''2025-06-01T00:00:00.000Z'' ''9001'' (two_legacy_records ! 0),
           migrated_macro ''2025-06-01T00:00:00.000Z'' ''9002'' (two_legacy_records ! Suc 0)])
   \<and> distinct (map fst (macros two_legacy_store))
   \<and> named_by_id two_legacy_store
   \<and> sorted_wrt (<) (map sort_num
        [migrated_macro ''2025-06-01T00:00:00.000Z'' ''9001'' (two_legacy_records ! 0),
         migrated_macro ''2025-06-01T00:00:00.000Z'' ''9002'' (two_legacy_records ! Suc 0)])
   \<and> map sort_num
        [migrated_macro ''2025-06-01T00:00:00.000Z'' ''9001'' (two_legacy_records ! 0),
         migrated_macro ''2025-06-01T00:00:00.000Z'' ''9002'' (two_legacy_records ! Suc 0)]
       = [9001, 9002]"
proof -
  have d: "distinct (map fst (macros two_legacy_store))"
    by (simp add: two_legacy_store_def)
  have n: "named_by_id two_legacy_store"
    by (simp add: named_by_id_def two_legacy_store_def listMacroFiles_def)
  have k: "map sort_num
        [migrated_macro ''2025-06-01T00:00:00.000Z'' ''9001'' (two_legacy_records ! 0),
         migrated_macro ''2025-06-01T00:00:00.000Z'' ''9002'' (two_legacy_records ! Suc 0)]
       = [9001, 9002]"
    by (simp add: sort_num_def macro_num_def parseInt10_9001 parseInt10_9002)
  have "sorted_wrt (<) (map sort_num
        [migrated_macro ''2025-06-01T00:00:00.000Z'' ''9001'' (two_legacy_records ! 0),
         migrated_macro ''2025-06-01T00:00:00.000Z'' ''9002'' (two_legacy_records ! Suc 0)])"
    using readMacros_sorted[OF two_legacy_read] d n by blast
  then show ?thesis
    using two_legacy_read d n k by simp
qed

text \<open>Two files holding the identifier 9001 give a list with that record twice.\<close>

theorem duplicate_ids_counterexample:
  "readMacros example_clock duplicate_id_store
     = (duplicate_id_store, Inr [probe_macro, probe_macro])
   \<and> map sort_num [probe_macro, probe_macro] = [9001, 9001]
   \<and> \<not> sorted_wrt (<) (map sort_num [probe_macro, probe_macro])
   \<and> \<not> distinct (map (get_prop ''id'') [probe_macro, probe_macro])"
proof -
  have k: "sort_num probe_macro = 9001"
    by (simp add: sort_num_def macro_num_def probe_macro_def text_eval)
  have r: "readMacros example_clock duplicate_id_store
     = (duplicate_id_store, Inr [probe_macro, probe_macro])"
    by (simp add: readMacros_def migrate_eval store_eval id_eval text_eval k
      ensureDefaultMacroIfEmpty_def duplicate_id_store_def probe_macro_def[symmetric] Let_def)
      (simp add: probe_macro_def text_eval)
  show ?thesis using r k by simp
qed

section \<open>Allocation of an identifier\<close>









section \<open>Expansion\<close>















end
